theory Spec2Isabelle
  imports Main
begin

section \<open>Values, errors and the outside world\<close>

text \<open>
  The importer (the first variant of the entry file, the one with the cache, the playlist
  locator and the duplicate check) talks to three outside parties: the operator's CSV
  selection (\<open>getCsvFile\<close>), a Redis client and the YouTube data API. Everything they
  hand to the program is JSON data, so one datatype of JSON values serves for search
  results, playlists and identifiers. A JavaScript value is a JSON value or
  \<open>undefined\<close>, which is \<open>None\<close>. Numbers are never inspected by the program.
\<close>

datatype json =
    JNull
  | JBool bool
  | JNum int
  | JStr string
  | JArr "json list"
  | JObj "(string \<times> json) list"

type_synonym jsval = "json option"

text \<open>
  What can be thrown: \<open>throw new Error(msg)\<close>, the \<open>TypeError\<close> of reading a property of
  \<open>undefined\<close> or \<open>null\<close>, the \<open>SyntaxError\<close> of \<open>JSON.parse\<close>, and the rejection of
  an awaited outside call.
\<close>

datatype exn =
    Error string
  | TypeError
  | SyntaxError
  | Rejected string

text \<open>
  A string stored in Redis is kept by what \<open>JSON.parse\<close> makes of it: the text of a JSON
  value, the empty string (the only falsy string), or a non-empty text that is not JSON.
  \<open>JSON.stringify\<close> of JSON data is the text of that data, and parsing it gives the data
  back.
\<close>

datatype cache_text =
    Text_json json
  | Text_empty
  | Text_invalid

definition JSON_stringify :: "json \<Rightarrow> cache_text" where
  "JSON_stringify v = Text_json v"

text \<open>\<open>client.get\<close> gives a string or \<open>null\<close>; \<open>JSON.parse(null)\<close> is \<open>null\<close>.\<close>

fun JSON_parse :: "cache_text option \<Rightarrow> exn + json" where
  "JSON_parse None = Inr JNull"
| "JSON_parse (Some (Text_json v)) = Inr v"
| "JSON_parse (Some Text_empty) = Inl SyntaxError"
| "JSON_parse (Some Text_invalid) = Inl SyntaxError"

text \<open>\<open>if (cacheData)\<close>: \<open>null\<close> and the empty string are falsy.\<close>

fun truthy_text :: "cache_text option \<Rightarrow> bool" where
  "truthy_text None = False"
| "truthy_text (Some Text_empty) = False"
| "truthy_text (Some (Text_json v)) = True"
| "truthy_text (Some Text_invalid) = True"

text \<open>
  Reading a property \<open>v.name\<close>. The program reads only \<open>id\<close>, \<open>videoId\<close>, \<open>snippet\<close>
  and \<open>title\<close>; arrays, strings, numbers and booleans have none of these, so the read
  gives \<open>undefined\<close> there. An object holds each of its keys once.
\<close>

fun get_prop :: "jsval \<Rightarrow> string \<Rightarrow> exn + jsval" where
  "get_prop None name = Inl TypeError"
| "get_prop (Some JNull) name = Inl TypeError"
| "get_prop (Some (JObj fields)) name = Inr (map_of fields name)"
| "get_prop (Some v) name = Inr None"

text \<open>\<open>xs[0]\<close> on an array: \<open>undefined\<close> when the array is empty.\<close>

fun index0 :: "json list \<Rightarrow> jsval" where
  "index0 [] = None"
| "index0 (x # xs) = Some x"

text \<open>\<open>isArray\<close> of lodash.\<close>

fun isArray :: "jsval \<Rightarrow> bool" where
  "isArray (Some (JArr xs)) = True"
| "isArray v = False"

text \<open>The elements of a value that \<open>isArray\<close> accepts.\<close>

fun elements :: "jsval \<Rightarrow> json list" where
  "elements (Some (JArr xs)) = xs"
| "elements v = []"

subsection \<open>Track records\<close>

text \<open>
  A row of the CSV export. Only the track name and the artist names are read; both are
  optional in the declared type. The other columns are carried along.
\<close>

record TrackData =
  Track_URI :: string
  Track_Name :: "string option"
  Artist_Names :: "string option"
  other_columns :: "(string \<times> string) list"

text \<open>A template literal renders a missing field as the text \<open>undefined\<close>.\<close>

fun interp :: "string option \<Rightarrow> string" where
  "interp None = ''undefined''"
| "interp (Some s) = s"

definition createRedisKey :: "TrackData \<Rightarrow> string" where
  "createRedisKey data =
     ''youtube-data-for-'' @ interp (Artist_Names data) @ ''-'' @ interp (Track_Name data)"

text \<open>The search text that \<open>addTrack\<close> builds: artist names, a space, track name.\<close>

definition search_query :: "TrackData \<Rightarrow> string" where
  "search_query data = interp (Artist_Names data) @ '' '' @ interp (Track_Name data)"

subsection \<open>Requests and the environment\<close>

text \<open>
  Every call that leaves the program is recorded, with its arguments, in the order it is
  made. The \<open>auth\<close> handle is passed unchanged to every API call and is left out.
\<close>

datatype event =
    GetCsvFile
  | RedisGet string
  | RedisSet string cache_text
  | RedisExpire string nat
  | SearchList string nat
  | PlaylistItemsList jsval jsval nat
  | PlaylistItemsInsert jsval jsval
  | PlaylistsList nat bool
  | PlaylistsInsert string

text \<open>
  \<open>getCsvFile\<close> ends the process when the operator picks \<open>exit\<close>, throws when the file
  cannot be read, and otherwise returns the parsed rows and the playlist name.
\<close>

datatype csv_reply =
    Exit
  | CsvThrows exn
  | Csv "TrackData option list" string

text \<open>
  The YouTube API and the operator are not under the program's control: each answer may
  depend on everything that was requested before, so each is a function of the requests
  made so far and of the arguments of the call. The API answers are the \<open>data.items\<close>
  (or \<open>data.id\<close>) of the response, or a rejection.
\<close>

record env =
  csv_source :: "event list \<Rightarrow> csv_reply"
  search_list :: "event list \<Rightarrow> string \<Rightarrow> nat \<Rightarrow> exn + json list option"
  playlistItems_list :: "event list \<Rightarrow> jsval \<Rightarrow> jsval \<Rightarrow> nat \<Rightarrow> exn + json list option"
  playlistItems_insert :: "event list \<Rightarrow> jsval \<Rightarrow> jsval \<Rightarrow> exn + unit"
  playlists_list :: "event list \<Rightarrow> nat \<Rightarrow> bool \<Rightarrow> exn + json list option"
  playlists_insert :: "event list \<Rightarrow> string \<Rightarrow> exn + jsval"

text \<open>
  The state the program works on: the Redis store (each key with its text and, when one
  is set, the time at which it expires), the clock in seconds, and the requests made so
  far. The Redis connection itself is taken to work.
\<close>

record world =
  redis :: "string \<Rightarrow> (cache_text \<times> nat option) option"
  now :: nat
  trace :: "event list"

definition emit :: "event \<Rightarrow> world \<Rightarrow> world" where
  "emit e w = w\<lparr>trace := trace w @ [e]\<rparr>"

text \<open>A key is live when it is stored and its expiry, if any, lies in the future.\<close>

definition live_text :: "world \<Rightarrow> string \<Rightarrow> cache_text option" where
  "live_text w k =
     (case redis w k of
        None \<Rightarrow> None
      | Some (v, None) \<Rightarrow> Some v
      | Some (v, Some t) \<Rightarrow> if now w < t then Some v else None)"

definition client_get :: "string \<Rightarrow> world \<Rightarrow> cache_text option \<times> world" where
  "client_get k w = (live_text w k, emit (RedisGet k) w)"

text \<open>\<open>SET\<close> without options stores the text and drops any expiry of the key.\<close>

definition client_set :: "string \<Rightarrow> cache_text \<Rightarrow> world \<Rightarrow> world" where
  "client_set k v w = emit (RedisSet k v) (w\<lparr>redis := (redis w)(k \<mapsto> (v, None))\<rparr>)"

text \<open>\<open>EXPIRE\<close> sets the expiry of a live key to the given number of seconds from now.\<close>

definition client_expire :: "string \<Rightarrow> nat \<Rightarrow> world \<Rightarrow> world" where
  "client_expire k secs w =
     emit (RedisExpire k secs)
       (case live_text w k of
          None \<Rightarrow> w
        | Some v \<Rightarrow> w\<lparr>redis := (redis w)(k \<mapsto> (v, Some (now w + secs)))\<rparr>)"

section \<open>The program\<close>

subsection \<open>\<open>videoIsAlreadyInPlaylist\<close>\<close>

text \<open>
  One \<open>playlistItems.list\<close> request for the playlist, filtered by the video, with
  \<open>maxResults: 50\<close>; the answer is \<open>!!items.length\<close>.
\<close>

definition videoIsAlreadyInPlaylist ::
  "env \<Rightarrow> jsval \<Rightarrow> jsval \<Rightarrow> world \<Rightarrow> (exn + bool) \<times> world" where
  "videoIsAlreadyInPlaylist env videoId playlistId w =
     (let w1 = emit (PlaylistItemsList playlistId videoId 50) w in
      case playlistItems_list env (trace w) playlistId videoId 50 of
        Inl e \<Rightarrow> (Inl e, w1)
      | Inr None \<Rightarrow> (Inl TypeError, w1)
      | Inr (Some items) \<Rightarrow> (Inr (length items \<noteq> 0), w1))"

subsection \<open>\<open>getYoutubeTrackData\<close>\<close>

text \<open>
  The cache is read first. A truthy text is parsed and used; otherwise one
  \<open>search.list\<close> request is sent with the query and \<open>maxResults: 1\<close>, and its
  \<open>data.items\<close> is used. A value that is not an array raises the error with the query
  in its message. An array is written back under the key, the key's expiry is set to
  86400 seconds, and the array is returned.
\<close>

definition getYoutubeTrackData ::
  "env \<Rightarrow> TrackData \<Rightarrow> string \<Rightarrow> world \<Rightarrow> (exn + json list) \<times> world" where
  "getYoutubeTrackData env data query w =
     (case client_get (createRedisKey data) w of
        (cacheData, w1) \<Rightarrow>
          (case (if truthy_text cacheData
                 then (case JSON_parse cacheData of
                         Inl e \<Rightarrow> (Inl e, w1)
                       | Inr v \<Rightarrow> (Inr (Some v), w1))
                 else (case search_list env (trace w1) query 1 of
                         Inl e \<Rightarrow> (Inl e, emit (SearchList query 1) w1)
                       | Inr items \<Rightarrow>
                           (Inr (map_option JArr items), emit (SearchList query 1) w1)))
           of
             (Inl e, w2) \<Rightarrow> (Inl e, w2)
           | (Inr youtubeTrackData, w2) \<Rightarrow>
               (if \<not> isArray youtubeTrackData
                then (Inl (Error (''No items were returned for query: '' @ query)), w2)
                else (Inr (elements youtubeTrackData),
                      client_expire (createRedisKey data) 86400
                        (client_set (createRedisKey data)
                           (JSON_stringify (JArr (elements youtubeTrackData))) w2)))))"

subsection \<open>\<open>addTrack\<close>\<close>

text \<open>
  The resolved array's element 0 is read without a check, then its \<open>id\<close> and that
  value's \<open>videoId\<close>. The log line of the already-present branch reads
  \<open>youtubeTrackData[0].snippet.title\<close>, which can throw as well. Only the insert is
  inside a \<open>try\<close>: its failure is logged and the function returns normally.
\<close>

definition addTrack ::
  "env \<Rightarrow> TrackData \<Rightarrow> jsval \<Rightarrow> world \<Rightarrow> (exn + unit) \<times> world" where
  "addTrack env data playlistId w =
     (let query = search_query data in
      case getYoutubeTrackData env data query w of
        (Inl e, w1) \<Rightarrow> (Inl e, w1)
      | (Inr youtubeTrackData, w1) \<Rightarrow>
          (case get_prop (index0 youtubeTrackData) ''id'' of
             Inl e \<Rightarrow> (Inl e, w1)
           | Inr resourceId \<Rightarrow>
               (case get_prop resourceId ''videoId'' of
                  Inl e \<Rightarrow> (Inl e, w1)
                | Inr videoId \<Rightarrow>
                    (case videoIsAlreadyInPlaylist env videoId playlistId w1 of
                       (Inl e, w2) \<Rightarrow> (Inl e, w2)
                     | (Inr True, w2) \<Rightarrow>
                         (case get_prop (index0 youtubeTrackData) ''snippet'' of
                            Inl e \<Rightarrow> (Inl e, w2)
                          | Inr snippet \<Rightarrow>
                              (case get_prop snippet ''title'' of
                                 Inl e \<Rightarrow> (Inl e, w2)
                               | Inr title \<Rightarrow> (Inr (), w2)))
                     | (Inr False, w2) \<Rightarrow>
                         (case playlistItems_insert env (trace w2) playlistId resourceId of
                            Inl e \<Rightarrow> (Inr (), emit (PlaylistItemsInsert playlistId resourceId) w2)
                          | Inr u \<Rightarrow> (Inr (), emit (PlaylistItemsInsert playlistId resourceId) w2))))))"

subsection \<open>\<open>playlistAlreadyExists\<close>\<close>

text \<open>
  The \<open>for\<close> loop over the listed playlists: the first one whose \<open>snippet.title\<close> is
  strictly equal to the title decides; with none, \<open>{exists: false, id: null}\<close>.
\<close>

fun scan_playlists :: "string \<Rightarrow> json list \<Rightarrow> exn + (bool \<times> jsval)" where
  "scan_playlists title [] = Inr (False, Some JNull)"
| "scan_playlists title (pl # pls) =
     (case get_prop (Some pl) ''snippet'' of
        Inl e \<Rightarrow> Inl e
      | Inr snippet \<Rightarrow>
          (case get_prop snippet ''title'' of
             Inl e \<Rightarrow> Inl e
           | Inr t \<Rightarrow>
               if t = Some (JStr title)
               then (case get_prop (Some pl) ''id'' of
                       Inl e \<Rightarrow> Inl e
                     | Inr i \<Rightarrow> Inr (True, i))
               else scan_playlists title pls))"

definition playlistAlreadyExists ::
  "env \<Rightarrow> string \<Rightarrow> world \<Rightarrow> (exn + (bool \<times> jsval)) \<times> world" where
  "playlistAlreadyExists env title w =
     (let w1 = emit (PlaylistsList 20 True) w in
      case playlists_list env (trace w) 20 True of
        Inl e \<Rightarrow> (Inl e, w1)
      | Inr None \<Rightarrow> (Inl TypeError, w1)
      | Inr (Some items) \<Rightarrow> (scan_playlists title items, w1))"

subsection \<open>\<open>addPlaylist\<close>\<close>

text \<open>
  The loop over \<open>results.data\<close>: a falsy row is passed over, and nothing catches what
  \<open>addTrack\<close> throws.
\<close>

fun addTracks ::
  "env \<Rightarrow> TrackData option list \<Rightarrow> jsval \<Rightarrow> world \<Rightarrow> (exn + unit) \<times> world" where
  "addTracks env [] resolvedId w = (Inr (), w)"
| "addTracks env (None # tracks) resolvedId w = addTracks env tracks resolvedId w"
| "addTracks env (Some track # tracks) resolvedId w =
     (case addTrack env track resolvedId w of
        (Inl e, w1) \<Rightarrow> (Inl e, w1)
      | (Inr u, w1) \<Rightarrow> addTracks env tracks resolvedId w1)"

text \<open>
  How one run through the body of \<open>addPlaylist\<close> ends: the statements up to the end of
  the loop were all executed, the process was ended by the operator, or an exception left
  the function.
\<close>

datatype pass_end =
    PassDone
  | ProcessExit
  | Uncaught exn

text \<open>
  The body of \<open>addPlaylist\<close> up to the end of the \<open>for\<close> loop. A failed
  \<open>playlists.insert\<close> is logged and the loop runs with the identifier the locator gave.
\<close>

definition addPlaylist_pass :: "env \<Rightarrow> world \<Rightarrow> pass_end \<times> world" where
  "addPlaylist_pass env w =
     (let w1 = emit GetCsvFile w in
      case csv_source env (trace w) of
        Exit \<Rightarrow> (ProcessExit, w1)
      | CsvThrows e \<Rightarrow> (Uncaught e, w1)
      | Csv results filename \<Rightarrow>
          (case playlistAlreadyExists env filename w1 of
             (Inl e, w2) \<Rightarrow> (Uncaught e, w2)
           | (Inr (exists, existingId), w2) \<Rightarrow>
               (case (if \<not> exists
                      then (case playlists_insert env (trace w2) filename of
                              Inl e \<Rightarrow> (existingId, emit (PlaylistsInsert filename) w2)
                            | Inr i \<Rightarrow> (i, emit (PlaylistsInsert filename) w2))
                      else (existingId, w2))
                of (resolvedId, w3) \<Rightarrow>
                  (case addTracks env results resolvedId w3 of
                     (Inl e, w4) \<Rightarrow> (Uncaught e, w4)
                   | (Inr u, w4) \<Rightarrow> (PassDone, w4)))))"

text \<open>
  After the loop \<open>addPlaylist\<close> calls itself. The call is not awaited, so the new
  pass is all that is left of the run, and how it ends is how the run ends. Whether the
  run ever ends is up to the operator, so the function takes the number of passes it may
  still start; \<open>None\<close> means that this number did not suffice.
\<close>

fun addPlaylist :: "nat \<Rightarrow> env \<Rightarrow> world \<Rightarrow> (pass_end \<times> world) option" where
  "addPlaylist 0 env w = None"
| "addPlaylist (Suc n) env w =
     (case addPlaylist_pass env w of
        (PassDone, w1) \<Rightarrow> addPlaylist n env w1
      | (ProcessExit, w1) \<Rightarrow> Some (ProcessExit, w1)
      | (Uncaught e, w1) \<Rightarrow> Some (Uncaught e, w1))"

section \<open>Observing a run\<close>

text \<open>The requests that only the resolver makes.\<close>

fun is_resolver_event :: "event \<Rightarrow> bool" where
  "is_resolver_event (RedisGet k) = True"
| "is_resolver_event (RedisSet k t) = True"
| "is_resolver_event (RedisExpire k n) = True"
| "is_resolver_event (SearchList q n) = True"
| "is_resolver_event e = False"

text \<open>The keys read from the cache, in order: one per attempted track.\<close>

fun redis_gets :: "event list \<Rightarrow> string list" where
  "redis_gets [] = []"
| "redis_gets (RedisGet k # es) = k # redis_gets es"
| "redis_gets (e # es) = redis_gets es"

text \<open>How often the operator was asked for a file.\<close>

fun prompts :: "event list \<Rightarrow> nat" where
  "prompts [] = 0"
| "prompts (GetCsvFile # es) = Suc (prompts es)"
| "prompts (e # es) = prompts es"

text \<open>The rows of the CSV that the loop does not pass over.\<close>

fun present_rows :: "'a option list \<Rightarrow> 'a list" where
  "present_rows [] = []"
| "present_rows (None # rows) = present_rows rows"
| "present_rows (Some row # rows) = row # present_rows rows"

text \<open>The requests \<open>addTrack\<close> can make when it is given the playlist \<open>pid\<close>.\<close>

fun track_event :: "jsval \<Rightarrow> event \<Rightarrow> bool" where
  "track_event pid (PlaylistItemsList p v n) = (p = pid)"
| "track_event pid (PlaylistItemsInsert p r) = (p = pid)"
| "track_event pid (PlaylistsInsert t) = False"
| "track_event pid (PlaylistsList n m) = False"
| "track_event pid GetCsvFile = False"
| "track_event pid e = True"

text \<open>\<open>pl.snippet.title\<close> and \<open>pl.id\<close> of a listed playlist.\<close>

definition snippet_title :: "json \<Rightarrow> exn + jsval" where
  "snippet_title pl =
     (case get_prop (Some pl) ''snippet'' of
        Inl e \<Rightarrow> Inl e
      | Inr snippet \<Rightarrow> get_prop snippet ''title'')"

definition playlist_id :: "json \<Rightarrow> jsval" where
  "playlist_id pl = (case get_prop (Some pl) ''id'' of Inl e \<Rightarrow> None | Inr i \<Rightarrow> i)"

subsection \<open>Example data\<close>

text \<open>Two tracks that the example searches find.\<close>

definition track_AX :: TrackData where
  "track_AX = \<lparr>Track_URI = ''spotify:track:1'', Track_Name = Some ''X'',
                Artist_Names = Some ''A'', other_columns = []\<rparr>"

definition track_BY :: TrackData where
  "track_BY = \<lparr>Track_URI = ''spotify:track:2'', Track_Name = Some ''Y'',
                Artist_Names = Some ''B'', other_columns = [(''Album Name'', ''Z'')]\<rparr>"

text \<open>
  A track the example search finds nothing for: the answer has no \<open>items\<close>.
\<close>

definition track_CZ :: TrackData where
  "track_CZ = \<lparr>Track_URI = ''spotify:track:3'', Track_Name = Some ''Z'',
                Artist_Names = Some ''C'', other_columns = []\<rparr>"

text \<open>A search result for a video, with its identifier and title.\<close>

definition video :: "string \<Rightarrow> string \<Rightarrow> json" where
  "video vid title =
     JObj [(''id'', JObj [(''kind'', JStr ''youtube#video''), (''videoId'', JStr vid)]),
           (''snippet'', JObj [(''title'', JStr title)])]"

text \<open>A playlist as the API lists it.\<close>

definition playlist :: "string \<Rightarrow> string \<Rightarrow> json" where
  "playlist pid title =
     JObj [(''kind'', JStr ''youtube#playlist''), (''id'', JStr pid),
           (''snippet'', JObj [(''title'', JStr title)])]"

text \<open>An empty cache at time 0, nothing requested yet.\<close>

definition empty_world :: world where
  "empty_world = \<lparr>redis = (\<lambda>k. None), now = 0, trace = []\<rparr>"

text \<open>
  An operator who picks \<open>exit\<close> at once, and an API without playlists, members or
  search results, on which every call succeeds.
\<close>

definition quiet_env :: env where
  "quiet_env =
     \<lparr>csv_source = (\<lambda>h. Exit),
      search_list = (\<lambda>h q n. Inr (Some [])),
      playlistItems_list = (\<lambda>h p v n. Inr (Some [])),
      playlistItems_insert = (\<lambda>h p r. Inr ()),
      playlists_list = (\<lambda>h n m. Inr (Some [])),
      playlists_insert = (\<lambda>h t. Inr (Some (JStr ''PL-new'')))\<rparr>"

text \<open>The same with a search that finds the two tracks and has no \<open>items\<close> for others.\<close>

definition finds_env :: env where
  "finds_env = quiet_env\<lparr>search_list :=
     (\<lambda>h q n. if q = ''A X'' then Inr (Some [video ''v-ax'' ''X (Official)''])
               else if q = ''B Y'' then Inr (Some [video ''v-by'' ''Y'']) else Inr None)\<rparr>"

text \<open>A search that succeeds with zero items.\<close>

definition no_results_env :: env where
  "no_results_env = quiet_env\<lparr>search_list := (\<lambda>h q n. Inr (Some []))\<rparr>"

text \<open>An account with three playlists, two of them with the same title.\<close>

definition three_playlists_env :: env where
  "three_playlists_env = finds_env\<lparr>playlists_list := (\<lambda>h n m.
     Inr (Some [playlist ''PL1'' ''Other'', playlist ''PL2'' ''MyList'',
                playlist ''PL3'' ''MyList'']))\<rparr>"

text \<open>
  The playlists created so far in a run, and the members of a playlist that carry a given
  video identifier.
\<close>

fun created :: "event list \<Rightarrow> json list" where
  "created [] = []"
| "created (PlaylistsInsert t # es) = playlist (''PL-'' @ t) t # created es"
| "created (e # es) = created es"

fun members :: "jsval \<Rightarrow> jsval \<Rightarrow> event list \<Rightarrow> json list" where
  "members p v [] = []"
| "members p v (PlaylistItemsInsert p' rid # es) =
     (if p' = p \<and> get_prop rid ''videoId'' = Inr v
      then JObj [(''kind'', JStr ''youtube#playlistItem'')] # members p v es
      else members p v es)"
| "members p v (e # es) = members p v es"

text \<open>
  A service that remembers: it lists the playlists created so far, and the membership
  check finds the videos inserted so far.
\<close>

definition youtube_env :: env where
  "youtube_env =
     \<lparr>csv_source = (\<lambda>h. Exit),
      search_list = (\<lambda>h q n.
         if q = ''A X'' then Inr (Some [video ''v-ax'' ''X (Official)''])
         else if q = ''B Y'' then Inr (Some [video ''v-by'' ''Y''])
         else Inr None),
      playlistItems_list = (\<lambda>h p v n. Inr (Some (take n (members p v h)))),
      playlistItems_insert = (\<lambda>h p r. Inr ()),
      playlists_list = (\<lambda>h n m. Inr (Some (take n (created h)))),
      playlists_insert = (\<lambda>h t. Inr (Some (JStr (''PL-'' @ t))))\<rparr>"

text \<open>A cache whose entry for the track \<open>A\<close>, \<open>X\<close> has 50 seconds left.\<close>

definition stale_world :: world where
  "stale_world = \<lparr>redis = (\<lambda>k. if k = ''youtube-data-for-A-X''
                                 then Some (Text_json (JArr [video ''v-ax'' ''X'']), Some 100)
                                 else None),
                  now = 50, trace = []\<rparr>"

text \<open>A cache that holds the text \<open>[]\<close> for the track \<open>A\<close>, \<open>X\<close>, not yet expired.\<close>

definition cached_empty_world :: world where
  "cached_empty_world =
     \<lparr>redis = (\<lambda>k. if k = ''youtube-data-for-A-X''
                     then Some (Text_json (JArr []), Some 86400) else None),
      now = 10, trace = []\<rparr>"

text \<open>An hour after the first resolution of the track \<open>A\<close>, \<open>X\<close> on an empty cache.\<close>

definition live_world :: world where
  "live_world =
     (snd (getYoutubeTrackData finds_env track_AX ''A X'' empty_world))\<lparr>now := 3600\<rparr>"

text \<open>
  The state after the track \<open>A\<close>, \<open>X\<close> was added to the playlist \<open>PL-MyList\<close>,
  starting from nothing.
\<close>

definition after_AX :: world where
  "after_AX =
     \<lparr>redis = (redis empty_world)(''youtube-data-for-A-X'' \<mapsto>
        (Text_json (JArr [video ''v-ax'' ''X (Official)'']), Some 86400)),
      now = 0,
      trace = [RedisGet ''youtube-data-for-A-X'', SearchList ''A X'' 1,
               RedisSet ''youtube-data-for-A-X'' (Text_json (JArr [video ''v-ax'' ''X (Official)''])),
               RedisExpire ''youtube-data-for-A-X'' 86400,
               PlaylistItemsList (Some (JStr ''PL-MyList'')) (Some (JStr ''v-ax'')) 50,
               PlaylistItemsInsert (Some (JStr ''PL-MyList''))
                 (Some (JObj [(''kind'', JStr ''youtube#video''), (''videoId'', JStr ''v-ax'')]))]\<rparr>"

text \<open>
  The state after \<open>A\<close>, \<open>X\<close> was added and the lookup of \<open>C\<close>, \<open>Z\<close> failed.
\<close>

definition after_CZ :: world where
  "after_CZ = after_AX\<lparr>trace := trace after_AX @
     [RedisGet ''youtube-data-for-C-Z'', SearchList ''C Z'' 1]\<rparr>"

text \<open>The operator picks a file whose first track has no search result.\<close>

definition failing_env :: env where
  "failing_env = youtube_env\<lparr>csv_source :=
     (\<lambda>h. if prompts h = 0 then Csv [Some track_CZ, Some track_AX] ''MyList'' else Exit)\<rparr>"

text \<open>
  Where that run ends: the playlist was created and the first track looked up; the second
  track was never touched.
\<close>

definition failed_world :: world where
  "failed_world =
     \<lparr>redis = redis empty_world, now = 0,
      trace = [GetCsvFile, PlaylistsList 20 True, PlaylistsInsert ''MyList'',
               RedisGet ''youtube-data-for-C-Z'', SearchList ''C Z'' 1]\<rparr>"

text \<open>
  An operator who picks the same one-track file twice and then \<open>exit\<close>.
\<close>

definition repeat_env :: env where
  "repeat_env = youtube_env\<lparr>csv_source :=
     (\<lambda>h. if prompts h < 2 then Csv [Some track_AX] ''MyList'' else Exit)\<rparr>"

text \<open>
  The state of that run when its first pass is through.
\<close>

definition first_pass_world :: world where
  "first_pass_world =
     \<lparr>redis = (redis empty_world)(''youtube-data-for-A-X'' \<mapsto>
        (Text_json (JArr [video ''v-ax'' ''X (Official)'']), Some 86400)),
      now = 0,
      trace = [GetCsvFile, PlaylistsList 20 True, PlaylistsInsert ''MyList'',
               RedisGet ''youtube-data-for-A-X'', SearchList ''A X'' 1,
               RedisSet ''youtube-data-for-A-X'' (Text_json (JArr [video ''v-ax'' ''X (Official)''])),
               RedisExpire ''youtube-data-for-A-X'' 86400,
               PlaylistItemsList (Some (JStr ''PL-MyList'')) (Some (JStr ''v-ax'')) 50,
               PlaylistItemsInsert (Some (JStr ''PL-MyList''))
                 (Some (JObj [(''kind'', JStr ''youtube#video''), (''videoId'', JStr ''v-ax'')]))]\<rparr>"

text \<open>
  Where that run ends: two imports of the same file, the second one served by the cache
  and stopped by the membership check, and a third prompt.
\<close>

definition repeat_world :: world where
  "repeat_world =
     \<lparr>redis = (redis empty_world)(''youtube-data-for-A-X'' \<mapsto>
        (Text_json (JArr [video ''v-ax'' ''X (Official)'']), Some 86400)),
      now = 0,
      trace = [GetCsvFile, PlaylistsList 20 True, PlaylistsInsert ''MyList'',
               RedisGet ''youtube-data-for-A-X'', SearchList ''A X'' 1,
               RedisSet ''youtube-data-for-A-X'' (Text_json (JArr [video ''v-ax'' ''X (Official)''])),
               RedisExpire ''youtube-data-for-A-X'' 86400,
               PlaylistItemsList (Some (JStr ''PL-MyList'')) (Some (JStr ''v-ax'')) 50,
               PlaylistItemsInsert (Some (JStr ''PL-MyList''))
                 (Some (JObj [(''kind'', JStr ''youtube#video''), (''videoId'', JStr ''v-ax'')])),
               GetCsvFile, PlaylistsList 20 True,
               RedisGet ''youtube-data-for-A-X'',
               RedisSet ''youtube-data-for-A-X'' (Text_json (JArr [video ''v-ax'' ''X (Official)''])),
               RedisExpire ''youtube-data-for-A-X'' 86400,
               PlaylistItemsList (Some (JStr ''PL-MyList'')) (Some (JStr ''v-ax'')) 50,
               GetCsvFile]\<rparr>"

text \<open>
  An operator who never picks \<open>exit\<close>: an empty file, again and again.
\<close>

definition tireless_env :: env where
  "tireless_env = quiet_env\<lparr>csv_source := (\<lambda>h. Csv [] ''MyList'')\<rparr>"

text \<open>
  The account with three playlists, and a file named \<open>MyList\<close> with two tracks and
  one falsy row between them.
\<close>

definition existing_env :: env where
  "existing_env = three_playlists_env\<lparr>csv_source :=
     (\<lambda>h. if prompts h = 0 then Csv [Some track_AX, None, Some track_BY] ''MyList'' else Exit)\<rparr>"

text \<open>
  The state after the pass over that file: both tracks went into the playlist \<open>PL2\<close>.
\<close>

definition existing_world :: world where
  "existing_world =
     \<lparr>redis = (redis empty_world)
        (''youtube-data-for-A-X'' \<mapsto>
           (Text_json (JArr [video ''v-ax'' ''X (Official)'']), Some 86400),
         ''youtube-data-for-B-Y'' \<mapsto>
           (Text_json (JArr [video ''v-by'' ''Y'']), Some 86400)),
      now = 0,
      trace = [GetCsvFile, PlaylistsList 20 True,
               RedisGet ''youtube-data-for-A-X'', SearchList ''A X'' 1,
               RedisSet ''youtube-data-for-A-X'' (Text_json (JArr [video ''v-ax'' ''X (Official)''])),
               RedisExpire ''youtube-data-for-A-X'' 86400,
               PlaylistItemsList (Some (JStr ''PL2'')) (Some (JStr ''v-ax'')) 50,
               PlaylistItemsInsert (Some (JStr ''PL2''))
                 (Some (JObj [(''kind'', JStr ''youtube#video''), (''videoId'', JStr ''v-ax'')])),
               RedisGet ''youtube-data-for-B-Y'', SearchList ''B Y'' 1,
               RedisSet ''youtube-data-for-B-Y'' (Text_json (JArr [video ''v-by'' ''Y''])),
               RedisExpire ''youtube-data-for-B-Y'' 86400,
               PlaylistItemsList (Some (JStr ''PL2'')) (Some (JStr ''v-by'')) 50,
               PlaylistItemsInsert (Some (JStr ''PL2''))
                 (Some (JObj [(''kind'', JStr ''youtube#video''), (''videoId'', JStr ''v-by'')]))]\<rparr>"

section \<open>Properties\<close>

subsection \<open>The state and the observations\<close>

lemma trace_emit [simp]: "trace (emit e w) = trace w @ [e]"
  by (simp add: emit_def)

lemma redis_emit [simp]: "redis (emit e w) = redis w"
  by (simp add: emit_def)

lemma now_emit [simp]: "now (emit e w) = now w"
  by (simp add: emit_def)

lemma live_text_emit [simp]: "live_text (emit e w) k = live_text w k"
  by (simp add: live_text_def split: option.splits)

lemma redis_gets_append [simp]: "redis_gets (xs @ ys) = redis_gets xs @ redis_gets ys"
  by (induction xs rule: redis_gets.induct) simp_all

lemma present_rows_append [simp]:
  "present_rows (xs @ ys) = present_rows xs @ present_rows ys"
  by (induction xs rule: present_rows.induct) simp_all

lemma isArray_elements: "isArray v \<Longrightarrow> v = Some (JArr (elements v))"
  by (cases v rule: isArray.cases) simp_all

lemma set_then_expire:
  "client_expire k secs (client_set k t w) =
     emit (RedisExpire k secs) (emit (RedisSet k t)
       (w\<lparr>redis := (redis w)(k \<mapsto> (t, Some (now w + secs)))\<rparr>))"
  by (simp add: client_expire_def client_set_def live_text_def emit_def)

text \<open>
  The equations that evaluate an example run.
\<close>

lemmas run_defs = addTrack_def getYoutubeTrackData_def videoIsAlreadyInPlaylist_def
  client_get_def set_then_expire live_text_def JSON_stringify_def emit_def Let_def
  createRedisKey_def search_query_def video_def

subsection \<open>The cache key\<close>

text \<open>
  Claim C7. The cache key of a track record is the text \<open>youtube-data-for-\<close>, then the
  artist names exactly as they are in the record, a hyphen, and the track name exactly as
  it is in the record: nothing is trimmed, folded or escaped.
\<close>

theorem createRedisKey_format:
  "createRedisKey (d\<lparr>Artist_Names := Some artist, Track_Name := Some name\<rparr>) =
     ''youtube-data-for-'' @ artist @ ''-'' @ name"
  by (simp add: createRedisKey_def)

lemma createRedisKey_example:
  "createRedisKey \<lparr>Track_URI = ''u'', Track_Name = Some ''Hey Ya! - Radio Mix'',
                   Artist_Names = Some ''OutKast, AC/DC'', other_columns = []\<rparr> =
     ''youtube-data-for-OutKast, AC/DC-Hey Ya! - Radio Mix''"
  by (simp add: createRedisKey_def)

lemma key_AX: "createRedisKey track_AX = ''youtube-data-for-A-X''"
  by (simp add: createRedisKey_def track_AX_def)

lemma query_AX: "search_query track_AX = ''A X''"
  by (simp add: search_query_def track_AX_def)

lemma key_CZ: "createRedisKey track_CZ = ''youtube-data-for-C-Z''"
  by (simp add: createRedisKey_def track_CZ_def)

lemma query_CZ: "search_query track_CZ = ''C Z''"
  by (simp add: search_query_def track_CZ_def)

subsection \<open>The resolver\<close>

lemma resolve_hit:
  assumes "live_text w (createRedisKey d) = Some (Text_json (JArr arr))"
  shows "getYoutubeTrackData env d q w =
           (Inr arr, client_expire (createRedisKey d) 86400
              (client_set (createRedisKey d) (JSON_stringify (JArr arr))
                 (emit (RedisGet (createRedisKey d)) w)))"
  using assms by (simp add: getYoutubeTrackData_def client_get_def)

lemma resolve_miss:
  assumes "\<not> truthy_text (live_text w (createRedisKey d))"
    and "search_list env (trace w @ [RedisGet (createRedisKey d)]) q 1 = Inr (Some arr)"
  shows "getYoutubeTrackData env d q w =
           (Inr arr, client_expire (createRedisKey d) 86400
              (client_set (createRedisKey d) (JSON_stringify (JArr arr))
                 (emit (SearchList q 1) (emit (RedisGet (createRedisKey d)) w))))"
  using assms by (simp add: getYoutubeTrackData_def client_get_def)

lemma resolve_ok_store:
  assumes "getYoutubeTrackData env d q w = (Inr arr, w')"
  shows "redis w' (createRedisKey d) = Some (JSON_stringify (JArr arr), Some (now w + 86400))"
    and "now w' = now w"
  using assms
  by (auto simp: getYoutubeTrackData_def client_get_def set_then_expire
      dest: isArray_elements split: if_splits sum.splits prod.splits option.splits)

lemma resolve_ok_events:
  assumes "getYoutubeTrackData env d q w = (Inr arr, w')"
  shows "\<exists>pre. trace w' = trace w @ pre @
           [RedisSet (createRedisKey d) (JSON_stringify (JArr arr)),
            RedisExpire (createRedisKey d) 86400]"
  using assms
  by (auto simp: getYoutubeTrackData_def client_get_def set_then_expire
      dest: isArray_elements split: if_splits sum.splits prod.splits option.splits)

lemma resolve_events:
  assumes "getYoutubeTrackData env d q w = (r, w1)"
  shows "\<exists>pre. trace w1 = trace w @ pre \<and> redis_gets pre = [createRedisKey d] \<and>
               (\<forall>e \<in> set pre. is_resolver_event e)"
  using assms
  by (auto simp: getYoutubeTrackData_def client_get_def set_then_expire
      split: if_splits sum.splits prod.splits option.splits)

text \<open>
  Claim C5. Whenever \<open>getYoutubeTrackData\<close> returns an array, the last two things it did
  were to store the text of that array under the track's key and to set the key's expiry
  to 86400 seconds; afterwards the key expires 86400 seconds from now, whatever expiry it
  had before, so a hit starts the full window again.
\<close>

theorem resolve_rearms_ttl:
  assumes "getYoutubeTrackData env d q w = (Inr arr, w')"
  shows "redis w' (createRedisKey d) =
           Some (JSON_stringify (JArr arr), Some (now w' + 86400)) \<and>
         (\<exists>pre. trace w' = trace w @ pre @
            [RedisSet (createRedisKey d) (JSON_stringify (JArr arr)),
             RedisExpire (createRedisKey d) 86400])"
  using resolve_ok_store [OF assms] resolve_ok_events [OF assms] by simp

lemma stale_hit: "getYoutubeTrackData quiet_env track_AX ''A X'' stale_world =
   (Inr [video ''v-ax'' ''X''],
     stale_world\<lparr>redis := (redis stale_world)(''youtube-data-for-A-X'' \<mapsto>
         (Text_json (JArr [video ''v-ax'' ''X'']), Some 86450)),
       trace := [RedisGet ''youtube-data-for-A-X'',
                 RedisSet ''youtube-data-for-A-X'' (Text_json (JArr [video ''v-ax'' ''X''])),
                 RedisExpire ''youtube-data-for-A-X'' 86400]\<rparr>)"
  by (simp add: getYoutubeTrackData_def client_get_def key_AX set_then_expire live_text_def
        stale_world_def JSON_stringify_def emit_def)

text \<open>
  A hit on an entry with 50 seconds left: after the call the entry has the full 86400.
\<close>

theorem resolve_rearms_ttl_witness:
  "live_text stale_world (createRedisKey track_AX) = Some (Text_json (JArr [video ''v-ax'' ''X''])) \<and>
   redis stale_world (createRedisKey track_AX) =
     Some (Text_json (JArr [video ''v-ax'' ''X'']), Some (now stale_world + 50)) \<and>
   redis (snd (getYoutubeTrackData quiet_env track_AX ''A X'' stale_world))
       (createRedisKey track_AX) =
     Some (Text_json (JArr [video ''v-ax'' ''X'']), Some (now stale_world + 86400))"
proof -
  let ?w' = "snd (getYoutubeTrackData quiet_env track_AX ''A X'' stale_world)"
  have run: "getYoutubeTrackData quiet_env track_AX ''A X'' stale_world =
               (Inr [video ''v-ax'' ''X''], ?w')"
    by (simp add: stale_hit)
  have later: "now ?w' = now stale_world"
    by (simp add: stale_hit)
  have before: "live_text stale_world (createRedisKey track_AX) =
                  Some (Text_json (JArr [video ''v-ax'' ''X''])) \<and>
                redis stale_world (createRedisKey track_AX) =
                  Some (Text_json (JArr [video ''v-ax'' ''X'']), Some (now stale_world + 50))"
    by (simp add: key_AX live_text_def stale_world_def)
  from resolve_rearms_ttl [OF run] before later show ?thesis
    by (simp add: JSON_stringify_def)
qed

text \<open>
  Claim C4. A track is resolved once, giving an array; later its cache entry is still
  what that call left and less than 86400 seconds have passed. Then a second resolution,
  whatever the API would answer and whatever the query text, returns the same array (so
  the same top candidate), and all it does is read the key, store the text again and set
  the expiry: it sends no search request.
\<close>

theorem resolve_twice_within_ttl:
  assumes first: "getYoutubeTrackData env d q w = (Inr arr, w1)"
    and kept: "redis w2 (createRedisKey d) = redis w1 (createRedisKey d)"
    and within: "now w2 < now w1 + 86400"
  shows "fst (getYoutubeTrackData env2 d q2 w2) = Inr arr \<and>
         trace (snd (getYoutubeTrackData env2 d q2 w2)) =
           trace w2 @
           [RedisGet (createRedisKey d),
            RedisSet (createRedisKey d) (JSON_stringify (JArr arr)),
            RedisExpire (createRedisKey d) 86400]"
proof -
  from resolve_ok_store [OF first] kept within
  have "live_text w2 (createRedisKey d) = Some (JSON_stringify (JArr arr))"
    by (simp add: live_text_def)
  then have hit: "live_text w2 (createRedisKey d) = Some (Text_json (JArr arr))"
    by (simp add: JSON_stringify_def)
  show ?thesis
    by (simp add: resolve_hit [OF hit] set_then_expire)
qed

lemma first_AX:
  "getYoutubeTrackData finds_env track_AX ''A X'' empty_world =
     (Inr [video ''v-ax'' ''X (Official)''],
      \<lparr>redis = (redis empty_world)(''youtube-data-for-A-X'' \<mapsto>
          (Text_json (JArr [video ''v-ax'' ''X (Official)'']), Some 86400)),
       now = 0,
       trace = [RedisGet ''youtube-data-for-A-X'', SearchList ''A X'' 1,
                RedisSet ''youtube-data-for-A-X'' (Text_json (JArr [video ''v-ax'' ''X (Official)''])),
                RedisExpire ''youtube-data-for-A-X'' 86400]\<rparr>)"
  by (simp add: getYoutubeTrackData_def client_get_def key_AX set_then_expire live_text_def
        empty_world_def finds_env_def quiet_env_def JSON_stringify_def emit_def)

text \<open>The track \<open>A\<close>, \<open>X\<close> resolved on an empty cache and again an hour later.\<close>

theorem resolve_twice_within_ttl_witness:
  "fst (getYoutubeTrackData finds_env track_AX ''A X'' empty_world) =
     Inr [video ''v-ax'' ''X (Official)''] \<and>
   now live_world < now (snd (getYoutubeTrackData finds_env track_AX ''A X'' empty_world)) + 86400 \<and>
   fst (getYoutubeTrackData quiet_env track_AX ''A X'' live_world) =
     Inr [video ''v-ax'' ''X (Official)''] \<and>
   trace (snd (getYoutubeTrackData quiet_env track_AX ''A X'' live_world)) =
     trace live_world @
     [RedisGet ''youtube-data-for-A-X'',
      RedisSet ''youtube-data-for-A-X'' (Text_json (JArr [video ''v-ax'' ''X (Official)''])),
      RedisExpire ''youtube-data-for-A-X'' 86400]"
proof -
  let ?w1 = "snd (getYoutubeTrackData finds_env track_AX ''A X'' empty_world)"
  have first: "getYoutubeTrackData finds_env track_AX ''A X'' empty_world =
                 (Inr [video ''v-ax'' ''X (Official)''], ?w1)"
    by (simp add: first_AX)
  have kept: "redis live_world (createRedisKey track_AX) = redis ?w1 (createRedisKey track_AX)"
    by (simp add: live_world_def)
  have within: "now live_world < now ?w1 + 86400"
    by (simp add: live_world_def first_AX)
  have once: "fst (getYoutubeTrackData finds_env track_AX ''A X'' empty_world) =
                Inr [video ''v-ax'' ''X (Official)'']"
    by (simp add: first_AX)
  from resolve_twice_within_ttl [OF first kept within, of quiet_env "''A X''"] once within
  show ?thesis
    by (simp add: key_AX JSON_stringify_def)
qed

text \<open>
  What the validation in \<open>getYoutubeTrackData\<close> does catch: a search answer without
  \<open>items\<close>, and a cached JSON value that is not an array. Both raise the error whose
  message ends with the query.
\<close>

lemma resolve_not_array_miss:
  assumes "\<not> truthy_text (live_text w (createRedisKey d))"
    and "search_list env (trace w @ [RedisGet (createRedisKey d)]) q 1 = Inr None"
  shows "fst (getYoutubeTrackData env d q w) =
           Inl (Error (''No items were returned for query: '' @ q))"
  using assms by (simp add: getYoutubeTrackData_def client_get_def)

lemma resolve_not_array_hit:
  assumes "live_text w (createRedisKey d) = Some (Text_json v)" and "\<not> isArray (Some v)"
  shows "fst (getYoutubeTrackData env d q w) =
           Inl (Error (''No items were returned for query: '' @ q))"
  using assms by (simp add: getYoutubeTrackData_def client_get_def)

text \<open>
  Claim C6. A track whose resolution yields an empty candidate sequence should fail with
  the error that carries the query. It does not: with an empty cache and a search that
  answers with zero items, \<open>getYoutubeTrackData\<close> returns the empty array as a result
  and stores the text \<open>[]\<close> for the full window.
\<close>

theorem resolve_accepts_empty_result:
  "fst (getYoutubeTrackData no_results_env track_AX (search_query track_AX) empty_world) = Inr [] \<and>
   live_text (snd (getYoutubeTrackData no_results_env track_AX (search_query track_AX) empty_world))
     (createRedisKey track_AX) = Some (Text_json (JArr []))"
  by (simp add: getYoutubeTrackData_def client_get_def key_AX query_AX set_then_expire live_text_def
        empty_world_def no_results_env_def quiet_env_def JSON_stringify_def emit_def)

text \<open>
  Claim C10. The validation accepts an empty array: when the live cache text is \<open>[]\<close>,
  or when the cache has nothing usable and the search answers with zero items,
  \<open>getYoutubeTrackData\<close> returns the empty array and \<open>addTrack\<close>, reading
  \<open>id\<close> of the missing element 0, throws a \<open>TypeError\<close>.
\<close>

theorem addTrack_needs_nonempty:
  assumes "live_text w (createRedisKey d) = Some (Text_json (JArr [])) \<or>
           (\<not> truthy_text (live_text w (createRedisKey d)) \<and>
            search_list env (trace w @ [RedisGet (createRedisKey d)]) (search_query d) 1 =
              Inr (Some []))"
  shows "fst (getYoutubeTrackData env d (search_query d) w) = Inr [] \<and>
         fst (addTrack env d playlistId w) = Inl TypeError"
  using assms
  by (auto simp: addTrack_def resolve_hit resolve_miss)

text \<open>Both ways of reaching the empty array, each ending in the \<open>TypeError\<close>.\<close>

theorem addTrack_needs_nonempty_witness:
  "live_text cached_empty_world (createRedisKey track_AX) = Some (Text_json (JArr [])) \<and>
   fst (addTrack quiet_env track_AX (Some (JStr ''PL1'')) cached_empty_world) = Inl TypeError \<and>
   \<not> truthy_text (live_text empty_world (createRedisKey track_AX)) \<and>
   fst (addTrack no_results_env track_AX (Some (JStr ''PL1'')) empty_world) = Inl TypeError"
proof -
  have hit: "live_text cached_empty_world (createRedisKey track_AX) = Some (Text_json (JArr []))"
    by (simp add: key_AX live_text_def cached_empty_world_def)
  have miss: "\<not> truthy_text (live_text empty_world (createRedisKey track_AX))"
    by (simp add: live_text_def empty_world_def)
  have zero: "search_list no_results_env (trace empty_world @ [RedisGet (createRedisKey track_AX)])
                (search_query track_AX) 1 = Inr (Some [])"
    by (simp add: no_results_env_def)
  from addTrack_needs_nonempty [of cached_empty_world track_AX quiet_env "Some (JStr ''PL1'')"]
       addTrack_needs_nonempty [of empty_world track_AX no_results_env "Some (JStr ''PL1'')"]
       hit miss zero
  show ?thesis by simp
qed

subsection \<open>The duplicate check in \<open>addTrack\<close>\<close>

lemma check_events:
  assumes "videoIsAlreadyInPlaylist env vid pid w1 = (r, w2)"
  shows "trace w2 = trace w1 @ [PlaylistItemsList pid vid 50]"
  using assms
  by (auto simp: videoIsAlreadyInPlaylist_def Let_def split: sum.splits option.splits)

text \<open>
  What \<open>addTrack\<close> requests after the resolution: nothing, the membership check alone,
  or the membership check and then the insert, the last only when the check said no.
\<close>

lemma addTrack_shape:
  assumes "addTrack env d pid w = (r, w')"
  shows "\<exists>w1 post. trace w' = trace w1 @ post \<and>
           (\<exists>r1. getYoutubeTrackData env d (search_query d) w = (r1, w1)) \<and>
           (post = [] \<or>
            (\<exists>vid. post = [PlaylistItemsList pid vid 50]) \<or>
            (\<exists>rid vid. post = [PlaylistItemsList pid vid 50, PlaylistItemsInsert pid rid] \<and>
               get_prop rid ''videoId'' = Inr vid \<and>
               fst (videoIsAlreadyInPlaylist env vid pid w1) = Inr False))"
proof (cases "getYoutubeTrackData env d (search_query d) w")
  case (Pair r1 w1)
  show ?thesis
  proof (cases r1)
    case (Inl e)
    with Pair assms have "w' = w1" by (simp add: addTrack_def)
    with Pair show ?thesis by auto
  next
    case (Inr ytd)
    show ?thesis
    proof (cases "get_prop (index0 ytd) ''id''")
      case (Inl e)
      with Pair Inr assms have "w' = w1" by (simp add: addTrack_def)
      with Pair show ?thesis by auto
    next
      case rid: (Inr rid)
      show ?thesis
      proof (cases "get_prop rid ''videoId''")
        case (Inl e)
        with Pair Inr rid assms have "w' = w1" by (simp add: addTrack_def)
        with Pair show ?thesis by auto
      next
        case vid: (Inr vid)
        obtain rc w2 where chk: "videoIsAlreadyInPlaylist env vid pid w1 = (rc, w2)"
          by (cases "videoIsAlreadyInPlaylist env vid pid w1")
        from check_events [OF chk]
        have t2: "trace w2 = trace w1 @ [PlaylistItemsList pid vid 50]" .
        show ?thesis
        proof (cases "rc = Inr False")
          case True
          with Pair Inr rid vid chk assms
          have "w' = emit (PlaylistItemsInsert pid rid) w2"
            by (auto simp: addTrack_def split: sum.splits)
          with t2 have "trace w' = trace w1 @ [PlaylistItemsList pid vid 50, PlaylistItemsInsert pid rid]"
            by simp
          with Pair vid chk True show ?thesis by auto
        next
          case False
          with Pair Inr rid vid chk assms have "w' = w2"
            by (auto simp: addTrack_def split: sum.splits bool.splits)
          with t2 Pair show ?thesis by auto
        qed
      qed
    qed
  qed
qed

text \<open>
  Claim C2. The requests of one \<open>addTrack\<close> call are those of the resolution (cache
  and search only) followed by nothing, by the membership check alone, or by the
  membership check and then the insert. So an insert is always directly preceded by the
  \<open>videoIsAlreadyInPlaylist\<close> request for the same playlist and the video identifier
  of the inserted resource, and that check returned \<open>false\<close>: when it returns
  \<open>true\<close>, or throws, nothing is inserted.
\<close>

theorem addTrack_checks_before_insert:
  assumes "addTrack env d pid w = (r, w')"
  shows "\<exists>pre post. trace w' = trace w @ pre @ post \<and>
           (\<forall>e \<in> set pre. is_resolver_event e) \<and>
           (post = [] \<or>
            (\<exists>vid. post = [PlaylistItemsList pid vid 50]) \<or>
            (\<exists>rid vid w1. post = [PlaylistItemsList pid vid 50, PlaylistItemsInsert pid rid] \<and>
               get_prop rid ''videoId'' = Inr vid \<and>
               trace w1 = trace w @ pre \<and>
               fst (videoIsAlreadyInPlaylist env vid pid w1) = Inr False))"
proof -
  from addTrack_shape [OF assms] obtain w1 post r1 where
    t: "trace w' = trace w1 @ post" and
    res: "getYoutubeTrackData env d (search_query d) w = (r1, w1)" and
    shape: "post = [] \<or>
            (\<exists>vid. post = [PlaylistItemsList pid vid 50]) \<or>
            (\<exists>rid vid. post = [PlaylistItemsList pid vid 50, PlaylistItemsInsert pid rid] \<and>
               get_prop rid ''videoId'' = Inr vid \<and>
               fst (videoIsAlreadyInPlaylist env vid pid w1) = Inr False)"
    by blast
  from resolve_events [OF res] obtain pre where
    p: "trace w1 = trace w @ pre" and ok: "\<forall>e \<in> set pre. is_resolver_event e"
    by blast
  from t p have "trace w' = trace w @ pre @ post" by simp
  with p ok shape show ?thesis by blast
qed

lemma add_AX:
  "addTrack youtube_env track_AX (Some (JStr ''PL-MyList'')) empty_world = (Inr (), after_AX)"
  by (simp add: run_defs youtube_env_def track_AX_def empty_world_def after_AX_def)

text \<open>
  The track \<open>A\<close>, \<open>X\<close> added to a playlist that does not have it yet: the check,
  then the insert.
\<close>

theorem addTrack_checks_before_insert_witness:
  "addTrack youtube_env track_AX (Some (JStr ''PL-MyList'')) empty_world = (Inr (), after_AX) \<and>
   (\<exists>pre post. trace after_AX = trace empty_world @ pre @ post \<and>
      (\<forall>e \<in> set pre. is_resolver_event e) \<and>
      (post = [] \<or>
       (\<exists>vid. post = [PlaylistItemsList (Some (JStr ''PL-MyList'')) vid 50]) \<or>
       (\<exists>rid vid w1. post = [PlaylistItemsList (Some (JStr ''PL-MyList'')) vid 50,
                              PlaylistItemsInsert (Some (JStr ''PL-MyList'')) rid] \<and>
          get_prop rid ''videoId'' = Inr vid \<and>
          trace w1 = trace empty_world @ pre \<and>
          fst (videoIsAlreadyInPlaylist youtube_env vid (Some (JStr ''PL-MyList'')) w1) =
            Inr False)))"
  using add_AX addTrack_checks_before_insert [OF add_AX] by (rule conjI)

text \<open>
  The same track once more: the check finds the video and nothing is inserted.
\<close>

lemma add_AX_again:
  "trace (snd (addTrack youtube_env track_AX (Some (JStr ''PL-MyList'')) after_AX)) =
     trace after_AX @
     [RedisGet ''youtube-data-for-A-X'',
      RedisSet ''youtube-data-for-A-X'' (Text_json (JArr [video ''v-ax'' ''X (Official)''])),
      RedisExpire ''youtube-data-for-A-X'' 86400,
      PlaylistItemsList (Some (JStr ''PL-MyList'')) (Some (JStr ''v-ax'')) 50]"
  by (simp add: run_defs youtube_env_def track_AX_def after_AX_def empty_world_def)

subsection \<open>The playlist locator\<close>

lemma scan_playlists_find:
  assumes "\<forall>pl \<in> set items. \<exists>t. snippet_title pl = Inr t"
  shows "scan_playlists title items =
           (case find (\<lambda>pl. snippet_title pl = Inr (Some (JStr title))) items of
              None \<Rightarrow> Inr (False, Some JNull)
            | Some pl \<Rightarrow> Inr (True, playlist_id pl))"
  using assms
proof (induction items)
  case Nil
  then show ?case by simp
next
  case (Cons pl pls)
  then obtain t where t: "snippet_title pl = Inr t" by auto
  then obtain sn where sn: "get_prop (Some pl) ''snippet'' = Inr sn" and tt: "get_prop sn ''title'' = Inr t"
    by (auto simp: snippet_title_def split: sum.splits)
  from sn obtain i where i: "get_prop (Some pl) ''id'' = Inr i"
    by (cases "(Some pl, ''snippet'')" rule: get_prop.cases) auto
  from Cons have IH: "scan_playlists title pls =
           (case find (\<lambda>pl. snippet_title pl = Inr (Some (JStr title))) pls of
              None \<Rightarrow> Inr (False, Some JNull)
            | Some pl \<Rightarrow> Inr (True, playlist_id pl))" by simp
  show ?case
    using t sn tt i IH by (simp add: playlist_id_def)
qed

lemma locator_events:
  assumes "playlistAlreadyExists env title w = (r, w2)"
  shows "trace w2 = trace w @ [PlaylistsList 20 True]"
  using assms by (auto simp: playlistAlreadyExists_def Let_def split: sum.splits option.splits)

text \<open>The single request is sent whatever the listing answers.\<close>

lemma playlistAlreadyExists_one_request:
  "trace (snd (playlistAlreadyExists env title w)) = trace w @ [PlaylistsList 20 True]"
  by (simp add: playlistAlreadyExists_def Let_def split: sum.splits option.splits)

text \<open>
  Claim C8. \<open>playlistAlreadyExists\<close> sends one \<open>playlists.list\<close> request, for the
  account's own playlists with \<open>maxResults\<close> 20, and no other request. When the
  listing succeeds with playlists that each have a snippet, the answer is
  \<open>{exists: true, id}\<close> with the identifier of the first listed playlist whose title
  is equal to the given one, character for character, and \<open>{exists: false, id: null}\<close>
  when no listed playlist has that title.
\<close>

theorem playlistAlreadyExists_first_match:
  assumes "playlists_list env (trace w) 20 True = Inr (Some items)"
    and "\<forall>pl \<in> set items. \<exists>t. snippet_title pl = Inr t"
  shows "fst (playlistAlreadyExists env title w) =
           (case find (\<lambda>pl. snippet_title pl = Inr (Some (JStr title))) items of
              None \<Rightarrow> Inr (False, Some JNull)
            | Some pl \<Rightarrow> Inr (True, playlist_id pl)) \<and>
         trace (snd (playlistAlreadyExists env title w)) = trace w @ [PlaylistsList 20 True]"
  using assms(1) scan_playlists_find [OF assms(2)]
  by (simp add: playlistAlreadyExists_def Let_def)

text \<open>
  Of two playlists titled \<open>MyList\<close> the first listed is returned; \<open>mylist\<close> matches
  neither.
\<close>

theorem playlistAlreadyExists_first_match_witness:
  "fst (playlistAlreadyExists three_playlists_env ''MyList'' empty_world) =
     Inr (True, Some (JStr ''PL2'')) \<and>
   fst (playlistAlreadyExists three_playlists_env ''mylist'' empty_world) =
     Inr (False, Some JNull)"
proof -
  let ?items = "[playlist ''PL1'' ''Other'', playlist ''PL2'' ''MyList'', playlist ''PL3'' ''MyList'']"
  have listed: "playlists_list three_playlists_env (trace empty_world) 20 True = Inr (Some ?items)"
    by (simp add: three_playlists_env_def)
  have titles: "snippet_title (playlist ''PL1'' ''Other'') = Inr (Some (JStr ''Other''))"
    "snippet_title (playlist ''PL2'' ''MyList'') = Inr (Some (JStr ''MyList''))"
    "snippet_title (playlist ''PL3'' ''MyList'') = Inr (Some (JStr ''MyList''))"
    by (simp_all add: snippet_title_def playlist_def)
  then have formed: "\<forall>pl \<in> set ?items. \<exists>t. snippet_title pl = Inr t"
    by simp
  have ident: "playlist_id (playlist ''PL2'' ''MyList'') = Some (JStr ''PL2'')"
    by (simp add: playlist_id_def playlist_def)
  from playlistAlreadyExists_first_match [OF listed formed, of "''MyList''"]
       playlistAlreadyExists_first_match [OF listed formed, of "''mylist''"]
  show ?thesis
    by (simp add: titles ident)
qed

subsection \<open>A failed resolution in the loop\<close>

text \<open>
  The loop over two stretches of rows: the second stretch runs only if the first one
  ended without an exception.
\<close>

lemma addTracks_append:
  "addTracks env (xs @ ys) pid w =
     (case addTracks env xs pid w of
        (Inl e, w1) \<Rightarrow> (Inl e, w1)
      | (Inr u, w1) \<Rightarrow> addTracks env ys pid w1)"
  by (induction env xs pid w rule: addTracks.induct)
     (auto split: prod.splits sum.splits)

lemma addTrack_resolve_fails:
  assumes "getYoutubeTrackData env track (search_query track) w = (Inl e, w1)"
  shows "addTrack env track pid w = (Inl e, w1)"
  using assms by (simp add: addTrack_def)

text \<open>
  Claim C1, as the code has it. When the rows before row \<open>k\<close> went through and the
  resolution of row \<open>k\<close> throws (the error for a search without items is one such
  exception), the loop of \<open>addPlaylist\<close> ends with that exception in the state the
  failed resolution left: nothing catches it, and the rows after \<open>k\<close> are not
  attempted, whatever they are.
\<close>

theorem addTracks_stops_at_failed_resolution:
  assumes "addTracks env before pid w = (Inr (), w1)"
    and "getYoutubeTrackData env track (search_query track) w1 = (Inl e, w2)"
  shows "addTracks env (before @ Some track # rest) pid w = (Inl e, w2)"
  using assms by (simp add: addTracks_append addTrack_resolve_fails)

lemma resolve_CZ_after_AX:
  "getYoutubeTrackData youtube_env track_CZ (search_query track_CZ) after_AX =
     (Inl (Error ''No items were returned for query: C Z''), after_CZ)"
  by (simp add: run_defs youtube_env_def track_CZ_def after_AX_def after_CZ_def empty_world_def)

text \<open>
  Three rows, the second without a search result: the first is added, the second fails,
  the third is not looked up.
\<close>

theorem addTracks_stops_at_failed_resolution_witness:
  "addTracks youtube_env [Some track_AX] (Some (JStr ''PL-MyList'')) empty_world =
     (Inr (), after_AX) \<and>
   addTracks youtube_env [Some track_AX, Some track_CZ, Some track_BY]
       (Some (JStr ''PL-MyList'')) empty_world =
     (Inl (Error ''No items were returned for query: C Z''), after_CZ) \<and>
   redis_gets (trace after_CZ) = [''youtube-data-for-A-X'', ''youtube-data-for-C-Z'']"
proof -
  have before: "addTracks youtube_env [Some track_AX] (Some (JStr ''PL-MyList'')) empty_world =
                  (Inr (), after_AX)"
    by (simp add: add_AX)
  have attempts: "redis_gets (trace after_CZ) = [''youtube-data-for-A-X'', ''youtube-data-for-C-Z'']"
    by (simp add: after_CZ_def after_AX_def)
  from addTracks_stops_at_failed_resolution [OF before resolve_CZ_after_AX, of "[Some track_BY]"]
       before attempts
  show ?thesis by simp
qed

lemma resolve_CZ_fails:
  assumes "live_text w ''youtube-data-for-C-Z'' = None"
  shows "getYoutubeTrackData failing_env track_CZ ''C Z'' w =
    (Inl (Error ''No items were returned for query: C Z''),
     emit (SearchList ''C Z'' 1) (emit (RedisGet ''youtube-data-for-C-Z'') w))"
  using assms
  by (simp add: getYoutubeTrackData_def client_get_def key_CZ failing_env_def youtube_env_def)

text \<open>
  Claim C1 as stated fails. The file has the rows \<open>C\<close>, \<open>Z\<close> and \<open>A\<close>, \<open>X\<close>;
  the search for the first answers without \<open>items\<close>. The run ends with the uncaught
  error after the first lookup: the second row, which the search would find, is never
  attempted.
\<close>

theorem addPlaylist_aborted_by_failed_resolution:
  "addPlaylist 1 failing_env empty_world =
     Some (Uncaught (Error ''No items were returned for query: C Z''), failed_world) \<and>
   redis_gets (trace failed_world) = [createRedisKey track_CZ]"
proof -
  have csv: "csv_source failing_env (trace empty_world) =
               Csv [Some track_CZ, Some track_AX] ''MyList''"
    by (simp add: failing_env_def empty_world_def)
  have loc: "playlistAlreadyExists failing_env ''MyList'' (emit GetCsvFile empty_world) =
               (Inr (False, Some JNull), emit (PlaylistsList 20 True) (emit GetCsvFile empty_world))"
    by (simp add: playlistAlreadyExists_def failing_env_def youtube_env_def empty_world_def)
  have ins: "playlists_insert failing_env h ''MyList'' = Inr (Some (JStr ''PL-MyList''))" for h
    by (simp add: failing_env_def youtube_env_def)
  let ?w3 = "emit (PlaylistsInsert ''MyList'')
               (emit (PlaylistsList 20 True) (emit GetCsvFile empty_world))"
  have miss: "live_text ?w3 ''youtube-data-for-C-Z'' = None"
    by (simp add: live_text_def empty_world_def)
  have loop: "addTracks failing_env [Some track_CZ, Some track_AX] (Some (JStr ''PL-MyList'')) ?w3 =
     (Inl (Error ''No items were returned for query: C Z''),
      emit (SearchList ''C Z'' 1) (emit (RedisGet ''youtube-data-for-C-Z'') ?w3))"
    by (simp add: addTrack_def query_CZ resolve_CZ_fails [OF miss])
  have pass: "addPlaylist_pass failing_env empty_world =
     (Uncaught (Error ''No items were returned for query: C Z''),
      emit (SearchList ''C Z'' 1) (emit (RedisGet ''youtube-data-for-C-Z'') ?w3))"
    by (simp add: addPlaylist_pass_def Let_def csv loc ins loop del: addTracks.simps)
  have w: "emit (SearchList ''C Z'' 1) (emit (RedisGet ''youtube-data-for-C-Z'') ?w3) = failed_world"
    by (simp add: emit_def empty_world_def failed_world_def)
  have run: "addPlaylist (Suc 0) failing_env empty_world =
     Some (Uncaught (Error ''No items were returned for query: C Z''), failed_world)"
    using w by (simp add: pass)
  have attempts: "redis_gets (trace failed_world) = [createRedisKey track_CZ]"
    by (simp add: failed_world_def key_CZ)
  from run attempts show ?thesis by simp
qed

subsection \<open>The requests of a pass\<close>

lemma resolver_track_event: "is_resolver_event e \<Longrightarrow> track_event pid e"
  by (cases e) simp_all

text \<open>
  One \<open>addTrack\<close> call reads the cache exactly once, and every request it makes is a
  cache or search request or names the playlist it was given.
\<close>

lemma addTrack_events:
  assumes "addTrack env d pid w = (r, w')"
  shows "\<exists>es. trace w' = trace w @ es \<and> redis_gets es = [createRedisKey d] \<and>
              (\<forall>e \<in> set es. track_event pid e)"
proof -
  from addTrack_shape [OF assms] obtain w1 post r1 where
    t: "trace w' = trace w1 @ post" and
    res: "getYoutubeTrackData env d (search_query d) w = (r1, w1)" and
    shape: "post = [] \<or>
            (\<exists>vid. post = [PlaylistItemsList pid vid 50]) \<or>
            (\<exists>rid vid. post = [PlaylistItemsList pid vid 50, PlaylistItemsInsert pid rid] \<and>
               get_prop rid ''videoId'' = Inr vid \<and>
               fst (videoIsAlreadyInPlaylist env vid pid w1) = Inr False)"
    by blast
  from resolve_events [OF res] obtain pre where
    p: "trace w1 = trace w @ pre" and g: "redis_gets pre = [createRedisKey d]" and
    ok: "\<forall>e \<in> set pre. is_resolver_event e"
    by blast
  from shape have post: "redis_gets post = [] \<and> (\<forall>e \<in> set post. track_event pid e)"
    by auto
  from t p have "trace w' = trace w @ (pre @ post)" by simp
  moreover from g post have "redis_gets (pre @ post) = [createRedisKey d]" by simp
  moreover from ok post have "\<forall>e \<in> set (pre @ post). track_event pid e"
    by (auto intro: resolver_track_event)
  ultimately show ?thesis by blast
qed

text \<open>
  The loop reads the cache once per row it attempts, in the order of the file: always an
  initial stretch of the present rows, and all of them when the loop ends normally.
\<close>

lemma addTracks_events:
  assumes "addTracks env rows pid w = (r, w')"
  shows "\<exists>es. trace w' = trace w @ es \<and> (\<forall>e \<in> set es. track_event pid e) \<and>
              (\<exists>n. redis_gets es = take n (map createRedisKey (present_rows rows))) \<and>
              (r = Inr () \<longrightarrow> redis_gets es = map createRedisKey (present_rows rows))"
  using assms
proof (induction env rows pid w arbitrary: r w' rule: addTracks.induct)
  case (1 env pid w)
  then show ?case by simp
next
  case (2 env rows pid w)
  then show ?case by simp
next
  case (3 env track rows pid w)
  obtain r1 w1 where one: "addTrack env track pid w = (r1, w1)"
    by (cases "addTrack env track pid w")
  from addTrack_events [OF one] obtain es1 where
    t1: "trace w1 = trace w @ es1" and g1: "redis_gets es1 = [createRedisKey track]" and
    ok1: "\<forall>e \<in> set es1. track_event pid e"
    by blast
  show ?case
  proof (cases r1)
    case (Inl e)
    with one "3.prems" have "r = Inl e" and "w' = w1" by simp_all
    moreover have "redis_gets es1 = take 1 (map createRedisKey (present_rows (Some track # rows)))"
      using g1 by simp
    ultimately show ?thesis using t1 ok1 by blast
  next
    case (Inr u)
    with one "3.prems" have rest: "addTracks env rows pid w1 = (r, w')" by simp
    from "3.IH" [OF one [symmetric] Inr rest] obtain es2 n where
      t2: "trace w' = trace w1 @ es2" and ok2: "\<forall>e \<in> set es2. track_event pid e" and
      g2: "redis_gets es2 = take n (map createRedisKey (present_rows rows))" and
      all2: "r = Inr () \<longrightarrow> redis_gets es2 = map createRedisKey (present_rows rows)"
      by blast
    from t1 t2 have "trace w' = trace w @ (es1 @ es2)" by simp
    moreover from ok1 ok2 have "\<forall>e \<in> set (es1 @ es2). track_event pid e" by auto
    moreover from g1 g2 have "redis_gets (es1 @ es2) =
        take (Suc n) (map createRedisKey (present_rows (Some track # rows)))" by simp
    moreover from g1 all2 have "r = Inr () \<longrightarrow> redis_gets (es1 @ es2) =
        map createRedisKey (present_rows (Some track # rows))" by simp
    ultimately show ?thesis by blast
  qed
qed

text \<open>
  A pass begins with the prompt; when it completes, the cache reads are those of the
  file's present rows, one each, in order.
\<close>

lemma pass_events:
  assumes "addPlaylist_pass env w = (r, w')"
  shows "\<exists>es. trace w' = trace w @ GetCsvFile # es \<and>
              (r = PassDone \<longrightarrow> (\<exists>results filename.
                  csv_source env (trace w) = Csv results filename \<and>
                  redis_gets es = map createRedisKey (present_rows results)))"
proof (cases "csv_source env (trace w)")
  case Exit
  with assms show ?thesis by (auto simp: addPlaylist_pass_def Let_def)
next
  case (CsvThrows e)
  with assms show ?thesis by (auto simp: addPlaylist_pass_def Let_def)
next
  case (Csv results filename)
  obtain rl w2 where loc: "playlistAlreadyExists env filename (emit GetCsvFile w) = (rl, w2)"
    by (cases "playlistAlreadyExists env filename (emit GetCsvFile w)")
  from locator_events [OF loc]
  have t2: "trace w2 = trace w @ [GetCsvFile, PlaylistsList 20 True]" by simp
  show ?thesis
  proof (cases rl)
    case (Inl e)
    with assms Csv loc t2 show ?thesis by (auto simp: addPlaylist_pass_def Let_def)
  next
    case (Inr found)
    obtain exists existingId where found: "found = (exists, existingId)" by (cases found)
    define choice where "choice = (if \<not> exists
                      then (case playlists_insert env (trace w2) filename of
                              Inl e \<Rightarrow> (existingId, emit (PlaylistsInsert filename) w2)
                            | Inr i \<Rightarrow> (i, emit (PlaylistsInsert filename) w2))
                      else (existingId, w2))"
    obtain resolvedId w3 where ch: "choice = (resolvedId, w3)" by (cases choice)
    have t3: "\<exists>mid. trace w3 = trace w @ GetCsvFile # mid \<and> redis_gets mid = []"
      using ch t2 by (auto simp: choice_def split: if_splits sum.splits)
    obtain rt w4 where loop: "addTracks env results resolvedId w3 = (rt, w4)"
      by (cases "addTracks env results resolvedId w3")
    from addTracks_events [OF loop] obtain es where
      t4: "trace w4 = trace w3 @ es" and
      all: "rt = Inr () \<longrightarrow> redis_gets es = map createRedisKey (present_rows results)"
      by blast
    from assms Csv loc Inr found ch loop
    have end1: "w' = w4" and end2: "r = PassDone \<longrightarrow> rt = Inr ()"
      by (auto simp: addPlaylist_pass_def Let_def choice_def split: sum.splits)
    from t3 obtain mid where m: "trace w3 = trace w @ GetCsvFile # mid" and gm: "redis_gets mid = []"
      by blast
    from m t4 end1 have "trace w' = trace w @ GetCsvFile # (mid @ es)" by simp
    moreover from gm all end2 have "r = PassDone \<longrightarrow>
        redis_gets (mid @ es) = map createRedisKey (present_rows results)" by simp
    ultimately show ?thesis using Csv by blast
  qed
qed

text \<open>
  Claim C9. When the locator finds a playlist with the title of the file, the pass sends
  no request that creates a playlist, and every membership check and every insert of the
  pass names the identifier the locator returned.
\<close>

theorem addPlaylist_reuses_existing_playlist:
  assumes "csv_source env (trace w) = Csv results filename"
    and "fst (playlistAlreadyExists env filename (emit GetCsvFile w)) = Inr (True, existingId)"
  shows "\<exists>es. trace (snd (addPlaylist_pass env w)) = trace w @ es \<and>
           (\<forall>e \<in> set es.
              (\<forall>t. e \<noteq> PlaylistsInsert t) \<and>
              (\<forall>p v n. e = PlaylistItemsList p v n \<longrightarrow> p = existingId) \<and>
              (\<forall>p r. e = PlaylistItemsInsert p r \<longrightarrow> p = existingId))"
proof -
  obtain w2 where loc: "playlistAlreadyExists env filename (emit GetCsvFile w) =
                          (Inr (True, existingId), w2)"
    using assms(2) by (cases "playlistAlreadyExists env filename (emit GetCsvFile w)") simp
  from locator_events [OF loc]
  have t2: "trace w2 = trace w @ [GetCsvFile, PlaylistsList 20 True]" by simp
  obtain rt w4 where loop: "addTracks env results existingId w2 = (rt, w4)"
    by (cases "addTracks env results existingId w2")
  from addTracks_events [OF loop] obtain es where
    t4: "trace w4 = trace w2 @ es" and ok: "\<forall>e \<in> set es. track_event existingId e"
    by blast
  from assms(1) loc loop have "snd (addPlaylist_pass env w) = w4"
    by (auto simp: addPlaylist_pass_def Let_def split: sum.splits)
  with t2 t4 have ev: "trace (snd (addPlaylist_pass env w)) =
      trace w @ ([GetCsvFile, PlaylistsList 20 True] @ es)" by simp
  have "(\<forall>t. e \<noteq> PlaylistsInsert t) \<and>
        (\<forall>p v n. e = PlaylistItemsList p v n \<longrightarrow> p = existingId) \<and>
        (\<forall>p r. e = PlaylistItemsInsert p r \<longrightarrow> p = existingId)"
    if "e \<in> set ([GetCsvFile, PlaylistsList 20 True] @ es)" for e
  proof -
    from that ok have "e = GetCsvFile \<or> e = PlaylistsList 20 True \<or> track_event existingId e"
      by auto
    then show ?thesis by (cases e) auto
  qed
  with ev show ?thesis by blast
qed

text \<open>
  The pass over the file \<open>MyList\<close> on the account that has such a playlist.
\<close>

lemma existing_pass:
  "addPlaylist_pass existing_env empty_world = (PassDone, existing_world)"
  by (simp add: run_defs addPlaylist_pass_def playlistAlreadyExists_def snippet_title_def
      playlist_def existing_env_def three_playlists_env_def finds_env_def quiet_env_def
      track_AX_def track_BY_def empty_world_def existing_world_def)

text \<open>
  In that pass the locator returns \<open>PL2\<close>, the first of the two playlists titled
  \<open>MyList\<close>.
\<close>

theorem addPlaylist_reuses_existing_playlist_witness:
  "csv_source existing_env (trace empty_world) =
     Csv [Some track_AX, None, Some track_BY] ''MyList'' \<and>
   fst (playlistAlreadyExists existing_env ''MyList'' (emit GetCsvFile empty_world)) =
     Inr (True, Some (JStr ''PL2'')) \<and>
   PlaylistsInsert ''MyList'' \<notin> set (trace (snd (addPlaylist_pass existing_env empty_world))) \<and>
   PlaylistItemsList (Some (JStr ''PL3'')) (Some (JStr ''v-ax'')) 50 \<notin>
     set (trace (snd (addPlaylist_pass existing_env empty_world)))"
proof -
  have csv: "csv_source existing_env (trace empty_world) =
               Csv [Some track_AX, None, Some track_BY] ''MyList''"
    by (simp add: existing_env_def empty_world_def)
  have found: "fst (playlistAlreadyExists existing_env ''MyList'' (emit GetCsvFile empty_world)) =
                 Inr (True, Some (JStr ''PL2''))"
    by (simp add: playlistAlreadyExists_def playlist_def existing_env_def three_playlists_env_def)
  have start: "trace empty_world = []"
    by (simp add: empty_world_def)
  from addPlaylist_reuses_existing_playlist [OF csv found] start
  have "PlaylistsInsert ''MyList'' \<notin> set (trace (snd (addPlaylist_pass existing_env empty_world)))"
    and "PlaylistItemsList (Some (JStr ''PL3'')) (Some (JStr ''v-ax'')) 50 \<notin>
          set (trace (snd (addPlaylist_pass existing_env empty_world)))"
    by auto
  with csv found show ?thesis by simp
qed

subsection \<open>After the pass\<close>

text \<open>
  Claim C3, as the code has it. A pass of \<open>addPlaylist\<close> over a file that completes
  has attempted every present row of the file exactly once, in order. Then
  \<open>addPlaylist\<close> calls itself: the run goes on from the state the pass left, and the
  first thing the next pass does is to ask the operator for a file again.
\<close>

theorem addPlaylist_pass_then_again:
  assumes "csv_source env (trace w) = Csv results filename"
    and "addPlaylist_pass env w = (PassDone, w1)"
  shows "(\<exists>es. trace w1 = trace w @ es \<and>
               redis_gets es = map createRedisKey (present_rows results)) \<and>
         addPlaylist (Suc n) env w = addPlaylist n env w1 \<and>
         (\<exists>rest. trace (snd (addPlaylist_pass env w1)) = trace w1 @ GetCsvFile # rest)"
proof -
  from pass_events [OF assms(2)] assms(1) obtain es where
    "trace w1 = trace w @ GetCsvFile # es" and
    "redis_gets es = map createRedisKey (present_rows results)"
    by auto
  then have attempts: "\<exists>es. trace w1 = trace w @ es \<and>
      redis_gets es = map createRedisKey (present_rows results)"
    by (intro exI [of _ "GetCsvFile # es"]) simp
  obtain r2 w2 where nxt: "addPlaylist_pass env w1 = (r2, w2)"
    by (cases "addPlaylist_pass env w1")
  from pass_events [OF nxt] obtain rest where "trace w2 = trace w1 @ GetCsvFile # rest"
    by blast
  with nxt have again: "\<exists>rest. trace (snd (addPlaylist_pass env w1)) = trace w1 @ GetCsvFile # rest"
    by simp
  from assms(2) have "addPlaylist (Suc n) env w = addPlaylist n env w1" by simp
  with attempts again show ?thesis by blast
qed

lemma first_pass:
  "addPlaylist_pass repeat_env empty_world = (PassDone, first_pass_world)"
  by (simp add: run_defs addPlaylist_pass_def playlistAlreadyExists_def snippet_title_def
      playlist_def repeat_env_def youtube_env_def track_AX_def empty_world_def first_pass_world_def)

text \<open>
  The first pass of that run, and the prompt that follows it.
\<close>

theorem addPlaylist_pass_then_again_witness:
  "addPlaylist_pass repeat_env empty_world = (PassDone, first_pass_world) \<and>
   (\<exists>es. trace first_pass_world = trace empty_world @ es \<and>
         redis_gets es = [createRedisKey track_AX]) \<and>
   addPlaylist 3 repeat_env empty_world = addPlaylist 2 repeat_env first_pass_world \<and>
   (\<exists>rest. trace (snd (addPlaylist_pass repeat_env first_pass_world)) =
      trace first_pass_world @ GetCsvFile # rest)"
proof -
  have csv: "csv_source repeat_env (trace empty_world) = Csv [Some track_AX] ''MyList''"
    by (simp add: repeat_env_def empty_world_def)
  from addPlaylist_pass_then_again [OF csv first_pass, of 2] first_pass
  show ?thesis
    by (simp add: numeral_3_eq_3 numeral_2_eq_2)
qed

lemma repeat_run:
  "addPlaylist (Suc (Suc (Suc 0))) repeat_env empty_world = Some (ProcessExit, repeat_world)"
  by (simp add: run_defs addPlaylist_pass_def playlistAlreadyExists_def snippet_title_def
      playlist_def repeat_env_def youtube_env_def track_AX_def empty_world_def repeat_world_def)

text \<open>
  Claim C3 as stated fails. The operator picks the one-track file, picks it again, then
  picks \<open>exit\<close>. One pass does not end the run; the run ends at the third prompt,
  and the track was attempted twice.
\<close>

theorem addPlaylist_repeats_import:
  "addPlaylist 1 repeat_env empty_world = None \<and>
   addPlaylist 3 repeat_env empty_world = Some (ProcessExit, repeat_world) \<and>
   redis_gets (trace repeat_world) = [createRedisKey track_AX, createRedisKey track_AX] \<and>
   prompts (trace repeat_world) = 3"
proof -
  have one: "addPlaylist (Suc 0) repeat_env empty_world = None"
    by (simp add: first_pass)
  have gets: "redis_gets (trace repeat_world) = [createRedisKey track_AX, createRedisKey track_AX]"
    by (simp add: repeat_world_def key_AX)
  have asked: "prompts (trace repeat_world) = 3"
    by (simp add: repeat_world_def)
  from one repeat_run gets asked show ?thesis
    by (simp add: numeral_3_eq_3)
qed

text \<open>
  With an operator who never picks \<open>exit\<close> and no failure, no number of passes
  ends the run.
\<close>

lemma tireless_pass: "\<exists>w1. addPlaylist_pass tireless_env w = (PassDone, w1)"
  by (simp add: addPlaylist_pass_def playlistAlreadyExists_def Let_def tireless_env_def quiet_env_def)

lemma addPlaylist_never_ends: "addPlaylist n tireless_env w = None"
proof (induction n arbitrary: w)
  case 0
  show ?case by simp
next
  case (Suc n)
  from tireless_pass obtain w1 where "addPlaylist_pass tireless_env w = (PassDone, w1)" ..
  with Suc show ?case by simp
qed

end
